theory Spec2Isabelle
  imports Main
begin

section \<open>The Astro controller (pkg/controllers/astro\_controller.go)\<close>

text \<open>
  The controller is embedded with explicit effects: every function returns its Go result
  together with the list of calls it made on its collaborators (work queue, lister,
  clientset, klog, runtime.HandleError), in program order. The collaborators themselves
  (client-go, apimachinery) are outside the repository; what they answer is a parameter,
  collected in the record \<open>env\<close>.
\<close>

subsection \<open>Data\<close>

definition AstroFinalizer :: string where
  "AstroFinalizer = ''astros.astertower.kasterism.io''"

text \<open>apimachinery's status errors carry a reason; \<open>fmt.Errorf\<close> gives a plain error.\<close>

datatype StatusReason = StatusReasonNotFound | StatusReasonConflict | StatusReasonInternalError

datatype error = StatusError StatusReason string | Errorf string

fun IsNotFound :: "error \<Rightarrow> bool" where
  "IsNotFound (StatusError reason msg) = (reason = StatusReasonNotFound)"
| "IsNotFound (Errorf msg) = False"

fun Error :: "error \<Rightarrow> string" where
  "Error (StatusError reason msg) = msg"
| "Error (Errorf msg) = msg"

text \<open>
  The fields of \<open>v1alpha1.Astro\<close> that the controller reads or writes, all of them from
  the embedded object metadata. \<open>DeletionTimestamp\<close> is a pointer to a time
  (\<open>None\<close> is the nil pointer); a time is its distance from Go's zero instant.
\<close>

record Astro =
  Namespace :: string
  Name :: string
  ResourceVersion :: string
  DeletionTimestamp :: "int option"
  Finalizers :: "string list"

text \<open>\<open>(*metav1.Time).IsZero\<close>: true for the nil pointer and for the zero instant.\<close>

definition IsZero :: "int option \<Rightarrow> bool" where
  "IsZero t = (case t of None \<Rightarrow> True | Some u \<Rightarrow> u = 0)"

text \<open>
  Values of type \<open>interface{}\<close> that reach the controller: queue items and the objects
  handed to the event handlers. \<open>OtherValue\<close> stands for any other dynamic type.
\<close>

datatype iface =
    GoString string
  | AstroPtr Astro
  | DeletedFinalStateUnknown string iface
  | OtherValue nat

datatype panic = IndexOutOfRange int nat | InterfaceConversion

datatype 'a outcome = Returns 'a | Panics panic

text \<open>The methods of \<open>workqueue.RateLimitingInterface\<close>.\<close>

datatype workqueue_call =
    Add iface
  | AddRateLimited iface
  | Get
  | Done iface
  | Forget iface
  | ShutDown
  | ShuttingDown

datatype effect =
    Klog string
  | HandleError error
  | HandleCrash
  | Workqueue workqueue_call
  | ListerGet string string
  | ClientUpdate Astro
  | WaitForCacheSync
  | GoWaitUntilRunWorker nat
  | ReceiveStopCh

text \<open>
  What the collaborators answer. \<open>SplitMetaNamespaceKey\<close> returns all three of its
  results, since \<open>syncHandler\<close> goes on to use namespace and name whatever the error is.
  \<open>Lister_Get namespace name\<close> is \<open>astroInformer.Lister().Astros(namespace).Get(name)\<close>,
  \<open>Update\<close> is the clientset's \<open>Astros(namespace).Update\<close> (only its error is used),
  \<open>GoSyntax\<close> is the rendering of a value by \<open>%#v\<close>, and \<open>CacheSynced\<close> is the result
  of \<open>cache.WaitForCacheSync\<close> (\<open>None\<close>: the call never returns).
\<close>

record env =
  SplitMetaNamespaceKey :: "string \<Rightarrow> string \<times> string \<times> error option"
  MetaNamespaceKeyFunc :: "iface \<Rightarrow> error + string"
  DeletionHandlingMetaNamespaceKeyFunc :: "iface \<Rightarrow> error + string"
  Lister_Get :: "string \<Rightarrow> string \<Rightarrow> error + Astro"
  Update :: "Astro \<Rightarrow> error option"
  GoSyntax :: "iface \<Rightarrow> string"
  CacheSynced :: "bool option"

subsection \<open>Creation, update and deletion handling\<close>

text \<open>
  The three handlers return the error, the object as they leave it (they mutate it through
  the pointer) and their effects.
\<close>

definition syncCreate :: "env \<Rightarrow> Astro \<Rightarrow> error option outcome \<times> Astro \<times> effect list" where
  "syncCreate c astro =
     (let astro' = astro\<lparr>Finalizers := Finalizers astro @ [AstroFinalizer]\<rparr>;
          t = [Klog (''Sync create astro: '' @ Name astro @ [CHR 0x0A]), ClientUpdate astro']
      in case Update c astro' of
           Some err \<Rightarrow> (Returns (Some err), astro', t @ [HandleError err])
         | None \<Rightarrow> (Returns None, astro', t))"

definition syncUpdate :: "env \<Rightarrow> Astro \<Rightarrow> error option outcome \<times> Astro \<times> effect list" where
  "syncUpdate c astro =
     (Returns None, astro, [Klog (''Sync update astro: '' @ Name astro @ [CHR 0x0A])])"

text \<open>
  The removal loop of \<open>syncDelete\<close>. Go evaluates the range expression once: the loop
  visits the indices of the original slice and reads each element from the backing array
  \<open>arr\<close>, which \<open>astro.Finalizers\<close> keeps sharing while its length \<open>n\<close> shrinks. The
  body indexes the current slice, so an index at or beyond \<open>n\<close> is a run-time panic
  (the right-hand side, evaluated first, panics when the slice is empty). The loop returns
  the panic, if any, with the backing array and the length at that moment.
\<close>

fun removeLoop :: "nat list \<Rightarrow> string list \<Rightarrow> nat \<Rightarrow> panic option \<times> string list \<times> nat" where
  "removeLoop [] arr n = (None, arr, n)"
| "removeLoop (i # is) arr n =
     (if arr ! i = AstroFinalizer then
        (if n = 0 then (Some (IndexOutOfRange (- 1) 0), arr, n)
         else if n \<le> i then (Some (IndexOutOfRange (int i) n), arr, n)
         else removeLoop is (arr[i := arr ! (n - 1)]) (n - 1))
      else removeLoop is arr n)"

definition syncDelete :: "env \<Rightarrow> Astro \<Rightarrow> error option outcome \<times> Astro \<times> effect list" where
  "syncDelete c astro =
     (let t = [Klog (''Sync delete astro: '' @ Name astro @ [CHR 0x0A])];
          fs = Finalizers astro
      in case removeLoop [0..<length fs] fs (length fs) of
           (Some p, arr, n) \<Rightarrow> (Panics p, astro\<lparr>Finalizers := take n arr\<rparr>, t)
         | (None, arr, n) \<Rightarrow>
             (let astro' = astro\<lparr>Finalizers := take n arr\<rparr>
              in case Update c astro' of
                   Some err \<Rightarrow>
                     (Returns (Some err), astro', t @ [ClientUpdate astro', HandleError err])
                 | None \<Rightarrow> (Returns None, astro', t @ [ClientUpdate astro'])))"

subsection \<open>The reconciler\<close>

text \<open>The finalizer scan of \<open>syncHandler\<close>: true when the loop returns through \<open>syncUpdate\<close>.\<close>

fun rangeFinalizers :: "string list \<Rightarrow> bool" where
  "rangeFinalizers [] = False"
| "rangeFinalizers (finalizer # rest) =
     (if finalizer = AstroFinalizer then True else rangeFinalizers rest)"

text \<open>A call made after the effects \<open>pre\<close>; the caller keeps the error and the effects.\<close>

definition calling :: "effect list \<Rightarrow> 'a outcome \<times> Astro \<times> effect list \<Rightarrow> 'a outcome \<times> effect list" where
  "calling pre r = (case r of (res, astro, t) \<Rightarrow> (res, pre @ t))"

definition syncHandler :: "env \<Rightarrow> string \<Rightarrow> error option outcome \<times> effect list" where
  "syncHandler c key =
     (case SplitMetaNamespaceKey c key of (namespace, name, err) \<Rightarrow>
        (let t1 = (if err \<noteq> None
                   then [HandleError (Errorf (''invalid respirce key:'' @ key))] else []);
             t2 = t1 @ [ListerGet namespace name]
         in case Lister_Get c namespace name of
              Inl err \<Rightarrow>
                (if IsNotFound err then (Returns None, t2)
                 else (Returns (Some err),
                       t2 @ [HandleError
                               (Errorf (''failed to get astro by: '' @ namespace @ ''/'' @ name))]))
            | Inr astro \<Rightarrow>
                (if \<not> IsZero (DeletionTimestamp astro) then calling t2 (syncDelete c astro)
                 else if rangeFinalizers (Finalizers astro) then calling t2 (syncUpdate c astro)
                 else calling t2 (syncCreate c astro))))"

subsection \<open>The worker\<close>

text \<open>
  \<open>processNextWorkItem\<close> on the answer \<open>(item, shutdown)\<close> of \<open>workqueue.Get\<close>. The
  deferred \<open>Done\<close> runs when the inner function returns and also when it panics.
\<close>

definition processNextWorkItem :: "env \<Rightarrow> iface \<times> bool \<Rightarrow> bool outcome \<times> effect list" where
  "processNextWorkItem c got =
     (case got of (item, shutdown) \<Rightarrow>
        (if shutdown then (Returns False, [Workqueue Get])
         else case item of
           GoString key \<Rightarrow>
             (case syncHandler c key of
                (Panics p, t) \<Rightarrow> (Panics p, [Workqueue Get] @ t @ [Workqueue (Done item)])
              | (Returns (Some err), t) \<Rightarrow>
                  (Returns False,
                   [Workqueue Get] @ t @
                   [Workqueue (Done item),
                    HandleError (Errorf (''error syncing '' @ [CHR 0x27] @ key @ [CHR 0x27]
                                          @ '':'' @ Error err))])
              | (Returns None, t) \<Rightarrow>
                  (Returns True,
                   [Workqueue Get] @ t @ [Workqueue (Forget item), Workqueue (Done item)]))
         | _ \<Rightarrow>
             (Returns True,
              [Workqueue Get, Workqueue (Forget item),
               HandleError (Errorf (''expected string in workqueue but got '' @ GoSyntax c item)),
               Workqueue (Done item)])))"

text \<open>
  \<open>runWorker\<close> calls \<open>processNextWorkItem\<close> until it returns false. The queue's answers
  to the successive \<open>Get\<close> calls are the list \<open>gets\<close>; once they are used up the next
  \<open>Get\<close> does not return, which is the result \<open>None\<close>.
\<close>

fun runWorker :: "env \<Rightarrow> (iface \<times> bool) list \<Rightarrow> unit outcome option \<times> effect list" where
  "runWorker c [] = (None, [Workqueue Get])"
| "runWorker c (got # gets) =
     (case processNextWorkItem c got of
        (Panics p, t) \<Rightarrow> (Some (Panics p), t)
      | (Returns False, t) \<Rightarrow> (Some (Returns ()), t)
      | (Returns True, t) \<Rightarrow> (case runWorker c gets of (r, t') \<Rightarrow> (r, t @ t')))"

subsection \<open>The event handlers\<close>

definition addAstro :: "env \<Rightarrow> iface \<Rightarrow> unit outcome \<times> effect list" where
  "addAstro c item =
     (case MetaNamespaceKeyFunc c item of
        Inl err \<Rightarrow> (Returns (), [HandleError err])
      | Inr key \<Rightarrow>
          (Returns (),
           [Klog ''Enqueue the astro crd for adding'', Workqueue (AddRateLimited (GoString key))]))"

definition deleteAstro :: "env \<Rightarrow> iface \<Rightarrow> unit outcome \<times> effect list" where
  "deleteAstro c item =
     (case DeletionHandlingMetaNamespaceKeyFunc c item of
        Inl err \<Rightarrow> (Returns (), [HandleError err])
      | Inr key \<Rightarrow>
          (Returns (),
           [Klog ''Enqueue the astro crd for deleting'', Workqueue (AddRateLimited (GoString key))]))"

text \<open>
  The two type assertions of \<open>updateAstro\<close> panic on anything that is not an Astro
  pointer.
\<close>

definition updateAstro :: "env \<Rightarrow> iface \<Rightarrow> iface \<Rightarrow> unit outcome \<times> effect list" where
  "updateAstro c old new =
     (case old of
        AstroPtr oldItem \<Rightarrow>
          (case new of
             AstroPtr newItem \<Rightarrow>
               (if ResourceVersion oldItem = ResourceVersion newItem then (Returns (), [])
                else case MetaNamespaceKeyFunc c new of
                       Inl err \<Rightarrow> (Returns (), [HandleError err])
                     | Inr key \<Rightarrow>
                         (Returns (),
                          [Klog ''Enqueue the astro crd for updating'',
                           Workqueue (AddRateLimited (GoString key))]))
           | _ \<Rightarrow> (Panics InterfaceConversion, []))
      | _ \<Rightarrow> (Panics InterfaceConversion, []))"

subsection \<open>The control loop driver\<close>

text \<open>
  \<open>Run thread stopCh\<close>: \<open>stopCh\<close> tells whether the stop channel is ever closed; when it
  is not, the receive blocks for ever and \<open>Run\<close> does not return (\<open>None\<close>), as when
  \<open>WaitForCacheSync\<close> does not return. The loop starts one goroutine for each
  \<open>i\<close> with \<open>0 \<le> i < thread\<close>. The two deferred calls run, last first, when \<open>Run\<close>
  returns.
\<close>

definition Run :: "env \<Rightarrow> int \<Rightarrow> bool \<Rightarrow> error option option \<times> effect list" where
  "Run c thread stopCh =
     (let deferred = [Workqueue ShuttingDown, HandleCrash];
          t1 = [Klog ''Starting Astro control loop'',
                Klog ''Waiting for informer caches to sync'', WaitForCacheSync]
      in case CacheSynced c of
           None \<Rightarrow> (None, t1)
         | Some False \<Rightarrow>
             (Some (Some (Errorf ''failed to wati for caches to sync'')), t1 @ deferred)
         | Some True \<Rightarrow>
             (let t2 = t1 @ [Klog ''Starting workers'']
                       @ map GoWaitUntilRunWorker [0..<nat thread]
                       @ [Klog ''Started workers'', ReceiveStopCh]
              in if stopCh then (Some None, t2 @ [Klog ''Shutting down workers''] @ deferred)
                 else (None, t2)))"

subsection \<open>client-go's key functions\<close>

text \<open>
  Concrete collaborators, used to run the controller on examples. \<open>splitKey\<close> follows
  \<open>cache.SplitMetaNamespaceKey\<close> (one part is a name, two parts are namespace and name,
  anything else is an error with both results empty) and \<open>metaNamespaceKey\<close> follows
  \<open>cache.MetaNamespaceKeyFunc\<close> on objects that carry metadata.
\<close>

fun splitSlash :: "string \<Rightarrow> string list" where
  "splitSlash [] = [[]]"
| "splitSlash (x # xs) =
     (if x = CHR ''/'' then [] # splitSlash xs
      else (case splitSlash xs of [] \<Rightarrow> [[x]] | p # ps \<Rightarrow> (x # p) # ps))"

definition splitKey :: "string \<Rightarrow> string \<times> string \<times> error option" where
  "splitKey key =
     (case splitSlash key of
        [name] \<Rightarrow> ([], name, None)
      | [namespace, name] \<Rightarrow> (namespace, name, None)
      | _ \<Rightarrow> ([], [], Some (Errorf (''unexpected key format: '' @ key))))"

definition metaNamespaceKey :: "iface \<Rightarrow> error + string" where
  "metaNamespaceKey obj =
     (case obj of
        AstroPtr a \<Rightarrow>
          Inr (if Namespace a = [] then Name a else Namespace a @ ''/'' @ Name a)
      | _ \<Rightarrow> Inl (Errorf ''object has no meta''))"

definition deletionHandlingMetaNamespaceKey :: "iface \<Rightarrow> error + string" where
  "deletionHandlingMetaNamespaceKey obj =
     (case obj of DeletedFinalStateUnknown key x \<Rightarrow> Inr key | _ \<Rightarrow> metaNamespaceKey obj)"

text \<open>
  An environment over an informer cache \<open>store\<close> (an association list from namespace and
  name to object) and a clientset whose \<open>Update\<close> answers \<open>upd\<close>.
\<close>

definition cacheGet :: "((string \<times> string) \<times> Astro) list \<Rightarrow> string \<Rightarrow> string \<Rightarrow> error + Astro" where
  "cacheGet store namespace name =
     (case map_of store (namespace, name) of
        None \<Rightarrow> Inl (StatusError StatusReasonNotFound (''astro not found: '' @ name))
      | Some a \<Rightarrow> Inr a)"

definition mkEnv :: "(string \<Rightarrow> string \<Rightarrow> error + Astro) \<Rightarrow> (Astro \<Rightarrow> error option) \<Rightarrow> env" where
  "mkEnv get upd =
     \<lparr>SplitMetaNamespaceKey = splitKey,
      MetaNamespaceKeyFunc = metaNamespaceKey,
      DeletionHandlingMetaNamespaceKeyFunc = deletionHandlingMetaNamespaceKey,
      Lister_Get = get,
      Update = upd,
      GoSyntax = (\<lambda>x. ''?''),
      CacheSynced = Some True\<rparr>"

subsection \<open>Observations on effects\<close>

text \<open>The work-queue calls and the clientset writes among a list of effects, in order.\<close>

fun queueCalls :: "effect list \<Rightarrow> workqueue_call list" where
  "queueCalls [] = []"
| "queueCalls (Workqueue q # t) = q # queueCalls t"
| "queueCalls (e # t) = queueCalls t"

fun storeWrites :: "effect list \<Rightarrow> Astro list" where
  "storeWrites [] = []"
| "storeWrites (ClientUpdate a # t) = a # storeWrites t"
| "storeWrites (e # t) = storeWrites t"

fun isAddRateLimited :: "workqueue_call \<Rightarrow> bool" where
  "isAddRateLimited (AddRateLimited item) = True"
| "isAddRateLimited q = False"

subsection \<open>Example objects and environments\<close>

definition astroPending :: Astro where
  "astroPending =
     \<lparr>Namespace = ''ns'', Name = ''a'', ResourceVersion = ''1'',
      DeletionTimestamp = None, Finalizers = [''kubernetes'']\<rparr>"

definition astroEstablished :: Astro where
  "astroEstablished = astroPending\<lparr>Finalizers := [''kubernetes'', AstroFinalizer]\<rparr>"

definition astroDeleting :: Astro where
  "astroDeleting = astroEstablished\<lparr>DeletionTimestamp := Some 63800000000\<rparr>"

definition astroTwice :: Astro where
  "astroTwice = astroDeleting\<lparr>Finalizers := [AstroFinalizer, AstroFinalizer]\<rparr>"

definition cacheEnv :: "Astro \<Rightarrow> env" where
  "cacheEnv a = mkEnv (cacheGet [((Namespace a, Name a), a)]) (\<lambda>x. None)"

definition unavailable :: error where
  "unavailable = StatusError StatusReasonInternalError ''etcdserver: request timed out''"

definition failingReadEnv :: env where
  "failingReadEnv = mkEnv (\<lambda>namespace name. Inl unavailable) (\<lambda>x. None)"

definition anyReadEnv :: "Astro \<Rightarrow> env" where
  "anyReadEnv a = mkEnv (\<lambda>namespace name. Inr a) (\<lambda>x. None)"

section \<open>Properties\<close>

subsection \<open>Auxiliary facts\<close>

lemma rangeFinalizers_mem: "rangeFinalizers fs = (AstroFinalizer \<in> set fs)"
  by (induction fs) auto

lemma queueCalls_append: "queueCalls (t @ u) = queueCalls t @ queueCalls u"
  by (induction t rule: queueCalls.induct) auto

lemma storeWrites_append: "storeWrites (t @ u) = storeWrites t @ storeWrites u"
  by (induction t rule: storeWrites.induct) auto

text \<open>The reconciler and its three handlers never touch the work queue.\<close>

lemma queueCalls_syncCreate: "queueCalls (snd (snd (syncCreate c a))) = []"
  by (simp add: syncCreate_def Let_def split: option.splits)

lemma queueCalls_syncUpdate: "queueCalls (snd (snd (syncUpdate c a))) = []"
  by (simp add: syncUpdate_def)

lemma queueCalls_syncDelete: "queueCalls (snd (snd (syncDelete c a))) = []"
  by (simp add: syncDelete_def Let_def split: option.splits prod.splits)

lemma queueCalls_calling:
  "queueCalls (snd (calling pre r)) = queueCalls pre @ queueCalls (snd (snd r))"
  by (cases r) (simp add: calling_def queueCalls_append)

lemma queueCalls_syncHandler: "queueCalls (snd (syncHandler c key)) = []"
  by (simp add: syncHandler_def Let_def queueCalls_calling queueCalls_append
        queueCalls_syncCreate queueCalls_syncUpdate queueCalls_syncDelete
      split: prod.splits sum.splits)

text \<open>A removal loop that meets no token changes nothing.\<close>

lemma removeLoop_no_token:
  "\<forall>i \<in> set is. arr ! i \<noteq> AstroFinalizer \<Longrightarrow> removeLoop is arr n = (None, arr, n)"
  by (induction "is") auto

lemma removeLoop_absent:
  assumes "AstroFinalizer \<notin> set fs"
  shows "removeLoop [0..<length fs] fs (length fs) = (None, fs, length fs)"
proof (rule removeLoop_no_token)
  show "\<forall>i \<in> set [0..<length fs]. fs ! i \<noteq> AstroFinalizer"
    using assms by (metis atLeastLessThan_iff nth_mem set_upt)
qed

text \<open>
  The loop on an arbitrary list. A token at an index that the loop has still to visit and
  that lies at or beyond the current length makes it panic (\<open>removeLoop_doomed\<close>); if
  the loop ends without a panic, no token is left within the final length
  (\<open>removeLoop_clean\<close>). A list that holds the token once never panics
  (\<open>removeLoop_single\<close>).
\<close>

lemma removeLoop_doomed:
  "length arr = N \<Longrightarrow> N - i = k \<Longrightarrow>
   \<exists>j. i \<le> j \<and> n \<le> j \<and> j < N \<and> arr ! j = AstroFinalizer \<Longrightarrow>
   fst (removeLoop [i..<N] arr n) \<noteq> None"
proof (induction k arbitrary: i arr n)
  case 0
  then show ?case by auto
next
  case (Suc k)
  then obtain j where j: "i \<le> j" "n \<le> j" "j < N" "arr ! j = AstroFinalizer"
    by blast
  have iN: "i < N" using Suc.prems(2) by simp
  have up: "[i..<N] = i # [Suc i..<N]" using iN by (simp add: upt_conv_Cons)
  show ?case
  proof (cases "arr ! i = AstroFinalizer")
    case False
    then have "j \<noteq> i" using j by auto
    then have "\<exists>j. Suc i \<le> j \<and> n \<le> j \<and> j < N \<and> arr ! j = AstroFinalizer"
      using j by (intro exI [of _ j]) auto
    then have "fst (removeLoop [Suc i..<N] arr n) \<noteq> None"
      using Suc.IH [of arr "Suc i" n] Suc.prems(1,2) by simp
    then show ?thesis using False up by simp
  next
    case True
    show ?thesis
    proof (cases "n = 0 \<or> n \<le> i")
      case True
      then show ?thesis using \<open>arr ! i = AstroFinalizer\<close> up by auto
    next
      case False
      then have "j \<noteq> i" using j by auto
      then have "\<exists>j. Suc i \<le> j \<and> n - 1 \<le> j \<and> j < N
                   \<and> (arr[i := arr ! (n - 1)]) ! j = AstroFinalizer"
        using j by (intro exI [of _ j]) auto
      then have "fst (removeLoop [Suc i..<N] (arr[i := arr ! (n - 1)]) (n - 1)) \<noteq> None"
        using Suc.IH [of "arr[i := arr ! (n - 1)]" "Suc i" "n - 1"] Suc.prems(1,2) by simp
      then show ?thesis using True False up by simp
    qed
  qed
qed

lemma removeLoop_clean:
  "length arr = N \<Longrightarrow> N - i = k \<Longrightarrow> i \<le> N \<Longrightarrow> n \<le> N \<Longrightarrow>
   \<forall>j. j < i \<and> j < n \<longrightarrow> arr ! j \<noteq> AstroFinalizer \<Longrightarrow>
   removeLoop [i..<N] arr n = (None, arr', n') \<Longrightarrow>
   n' \<le> N \<and> length arr' = N \<and> (\<forall>j < n'. arr' ! j \<noteq> AstroFinalizer)"
proof (induction k arbitrary: i arr n)
  case 0
  then have "i = N" by simp
  then show ?case using 0 by auto
next
  case (Suc k)
  have iN: "i < N" using Suc.prems(2) by simp
  have up: "[i..<N] = i # [Suc i..<N]" using iN by (simp add: upt_conv_Cons)
  show ?case
  proof (cases "arr ! i = AstroFinalizer")
    case False
    have g: "\<forall>j. j < Suc i \<and> j < n \<longrightarrow> arr ! j \<noteq> AstroFinalizer"
      using Suc.prems(5) False by (auto simp add: less_Suc_eq)
    have r: "removeLoop [Suc i..<N] arr n = (None, arr', n')"
      using Suc.prems(6) False up by simp
    show ?thesis
      using Suc.IH [OF Suc.prems(1) _ _ Suc.prems(4) g r] Suc.prems(2) iN by simp
  next
    case True
    have ni: "n \<noteq> 0 \<and> \<not> n \<le> i"
      using Suc.prems(6) True up by (auto split: if_splits)
    let ?a = "arr[i := arr ! (n - 1)]"
    have r: "removeLoop [Suc i..<N] ?a (n - 1) = (None, arr', n')"
      using Suc.prems(6) True up ni by simp
    have la: "length ?a = N" using Suc.prems(1) by simp
    have nn: "n - 1 \<le> N" using Suc.prems(4) by simp
    show ?thesis
    proof (cases "arr ! (n - 1) = AstroFinalizer \<and> i < n - 1")
      case True
      then have "\<exists>j. Suc i \<le> j \<and> n - 1 \<le> j \<and> j < N \<and> ?a ! j = AstroFinalizer"
        using ni Suc.prems(4) by (intro exI [of _ "n - 1"]) auto
      then have "fst (removeLoop [Suc i..<N] ?a (n - 1)) \<noteq> None"
        using removeLoop_doomed [OF la, of "Suc i" k "n - 1"] Suc.prems(2) by simp
      then show ?thesis using r by simp
    next
      case False
      have g: "\<forall>j. j < Suc i \<and> j < n - 1 \<longrightarrow> ?a ! j \<noteq> AstroFinalizer"
      proof (intro allI impI)
        fix j assume j: "j < Suc i \<and> j < n - 1"
        show "?a ! j \<noteq> AstroFinalizer"
        proof (cases "j = i")
          case True
          then have "i < n - 1" using j by simp
          then have "arr ! (n - 1) \<noteq> AstroFinalizer" using False by simp
          then show ?thesis using True iN Suc.prems(1) by simp
        next
          case False
          then have "j < i" "j < n" using j by auto
          then have "arr ! j \<noteq> AstroFinalizer" using Suc.prems(5) by blast
          then show ?thesis using False by simp
        qed
      qed
      show ?thesis
        using Suc.IH [OF la _ _ nn g r] Suc.prems(2) iN by simp
    qed
  qed
qed

lemma removeLoop_removes_token:
  assumes "removeLoop [0..<length fs] fs (length fs) = (None, arr, n)"
  shows "AstroFinalizer \<notin> set (take n arr)"
proof -
  have "n \<le> length fs \<and> length arr = length fs \<and> (\<forall>j < n. arr ! j \<noteq> AstroFinalizer)"
    using removeLoop_clean [of fs "length fs" 0 "length fs" "length fs" arr n] assms by simp
  then show ?thesis
    by (auto simp add: in_set_conv_nth)
qed

lemma removeLoop_skip:
  "\<forall>i \<in> set is. arr ! i \<noteq> AstroFinalizer \<Longrightarrow> removeLoop (is @ js) arr n = removeLoop js arr n"
  by (induction "is") auto

lemma removeLoop_single:
  assumes "AstroFinalizer \<notin> set xs" and "AstroFinalizer \<notin> set ys"
  shows "fst (removeLoop [0..<length (xs @ AstroFinalizer # ys)] (xs @ AstroFinalizer # ys)
                (length (xs @ AstroFinalizer # ys))) = None"
proof -
  let ?fs = "xs @ AstroFinalizer # ys"
  let ?N = "length ?fs"
  let ?p = "length xs"
  have "[0..<?N] = [0..<?p] @ [?p..<?N]"
    using upt_add_eq_append [of 0 ?p "Suc (length ys)"] by simp
  moreover have "?p < ?N"
    by simp
  then have "[?p..<?N] = ?p # [Suc ?p..<?N]"
    by (rule upt_conv_Cons)
  ultimately have sp: "[0..<?N] = [0..<?p] @ ?p # [Suc ?p..<?N]"
    by (simp only:)
  have pre: "\<forall>i \<in> set [0..<?p]. ?fs ! i \<noteq> AstroFinalizer"
  proof
    fix i assume "i \<in> set [0..<?p]"
    then have i: "i < length xs" by simp
    then have "xs ! i \<in> set xs" by (rule nth_mem)
    then have "xs ! i \<noteq> AstroFinalizer" using assms(1) by metis
    then show "?fs ! i \<noteq> AstroFinalizer" using i by (simp add: nth_append)
  qed
  have at: "?fs ! ?p = AstroFinalizer" by simp
  let ?a = "?fs[?p := ?fs ! (?N - 1)]"
  have post: "\<forall>i \<in> set [Suc ?p..<?N]. ?a ! i \<noteq> AstroFinalizer"
  proof
    fix i assume "i \<in> set [Suc ?p..<?N]"
    then have i: "Suc ?p \<le> i" "i < ?N" by auto
    have "?p \<noteq> i" using i by simp
    then have "?a ! i = ?fs ! i" by (rule nth_list_update_neq)
    also have "\<dots> = ys ! (i - Suc ?p)"
      using i by (simp add: nth_append nth_Cons')
    finally have e: "?a ! i = ys ! (i - Suc ?p)" .
    have "i - Suc ?p < length ys" using i by auto
    then have "ys ! (i - Suc ?p) \<in> set ys" by (rule nth_mem)
    then have "ys ! (i - Suc ?p) \<noteq> AstroFinalizer" using assms(2) by metis
    then show "?a ! i \<noteq> AstroFinalizer" using e by metis
  qed
  have "removeLoop [0..<?N] ?fs ?N = removeLoop (?p # [Suc ?p..<?N]) ?fs ?N"
    using removeLoop_skip [OF pre, of "?p # [Suc ?p..<?N]" ?N] sp by simp
  also have "\<dots> = removeLoop [Suc ?p..<?N] ?a (?N - 1)"
    using at by simp
  also have "\<dots> = (None, ?a, ?N - 1)"
    using removeLoop_no_token [OF post] by simp
  finally show ?thesis by simp
qed


text \<open>
  So \<open>syncDelete\<close> either panics or leaves an object without the token, and it does
  not panic on an object that holds the token exactly once.
\<close>

lemma syncDelete_returns_without_token:
  assumes "fst (syncDelete c astro) = Returns r"
  shows "AstroFinalizer \<notin> set (Finalizers (fst (snd (syncDelete c astro))))"
proof -
  obtain p arr n where l: "removeLoop [0..<length (Finalizers astro)] (Finalizers astro)
                              (length (Finalizers astro)) = (p, arr, n)"
    by (metis prod_cases3)
  have "p = None"
    using assms l by (cases p) (simp_all add: syncDelete_def Let_def)
  then have "AstroFinalizer \<notin> set (take n arr)"
    using removeLoop_removes_token l by simp
  then show ?thesis
    using l \<open>p = None\<close> by (simp add: syncDelete_def Let_def split: option.splits)
qed

lemma syncDelete_single_token:
  assumes "Finalizers astro = xs @ AstroFinalizer # ys"
      and "AstroFinalizer \<notin> set xs" and "AstroFinalizer \<notin> set ys"
  shows "\<exists>r. fst (syncDelete c astro) = Returns r"
proof -
  have "fst (removeLoop [0..<length (Finalizers astro)] (Finalizers astro)
               (length (Finalizers astro))) = None"
    using removeLoop_single [OF assms(2,3)] assms(1) by simp
  then show ?thesis
    by (auto simp add: syncDelete_def Let_def split: option.splits prod.splits)
qed

text \<open>What each event handler puts on the queue.\<close>

lemma addAstro_calls:
  "queueCalls (snd (addAstro c item)) =
     (case MetaNamespaceKeyFunc c item of
        Inl err \<Rightarrow> [] | Inr key \<Rightarrow> [AddRateLimited (GoString key)])"
  by (simp add: addAstro_def split: sum.splits)

lemma deleteAstro_calls:
  "queueCalls (snd (deleteAstro c item)) =
     (case DeletionHandlingMetaNamespaceKeyFunc c item of
        Inl err \<Rightarrow> [] | Inr key \<Rightarrow> [AddRateLimited (GoString key)])"
  by (simp add: deleteAstro_def split: sum.splits)

lemma updateAstro_calls:
  "queueCalls (snd (updateAstro c old new)) = [] \<or>
   (\<exists>key. queueCalls (snd (updateAstro c old new)) = [AddRateLimited (GoString key)])"
  by (simp add: updateAstro_def split: sum.splits iface.splits)

lemma queueCalls_workers: "queueCalls (map GoWaitUntilRunWorker ns) = []"
  by (induction ns) auto

text \<open>Whatever its inputs, the only queue method \<open>Run\<close> ever calls is \<open>ShuttingDown\<close>.\<close>

lemma Run_queueCalls:
  "queueCalls (snd (Run c thread stopCh)) = [] \<or>
   queueCalls (snd (Run c thread stopCh)) = [ShuttingDown]"
  by (simp add: Run_def Let_def queueCalls_append queueCalls_workers
      split: option.splits bool.splits)

subsection \<open>C1: creation handling and the finalizer token\<close>

text \<open>
  Claim C1 says that creation handling is idempotent: on an object that already carries
  the controller's token, \<open>syncCreate\<close> leaves the finalizer set unchanged and returns no
  error when the persist succeeds. The code appends without looking: on the object
  \<open>astroEstablished\<close>, which has the token, and with a persist that succeeds, the token
  ends up in the list twice.
\<close>

theorem syncCreate_not_idempotent:
  "AstroFinalizer \<in> set (Finalizers astroEstablished)
   \<and> Update (cacheEnv astroEstablished)
        (astroEstablished\<lparr>Finalizers := Finalizers astroEstablished @ [AstroFinalizer]\<rparr>) = None
   \<and> Finalizers (fst (snd (syncCreate (cacheEnv astroEstablished) astroEstablished)))
       = [''kubernetes'', AstroFinalizer, AstroFinalizer]
   \<and> Finalizers (fst (snd (syncCreate (cacheEnv astroEstablished) astroEstablished)))
       \<noteq> Finalizers astroEstablished"
  by (simp add: syncCreate_def Let_def astroEstablished_def astroPending_def cacheEnv_def
        mkEnv_def)

text \<open>
  Claim C1 as amended: \<open>syncCreate\<close> appends the token to whatever list the object has and,
  when the persist succeeds, returns no error; the token then occurs exactly once if it
  was absent before. The guard against a second occurrence is in \<open>syncHandler\<close>: an object
  that is read for a well-formed key, is not being deleted and already has the token goes
  to update handling, which returns no error, writes nothing to the store and leaves the
  object as it is.
\<close>

theorem syncCreate_appends_token:
  "(Update c (astro\<lparr>Finalizers := Finalizers astro @ [AstroFinalizer]\<rparr>) = None \<longrightarrow>
      fst (syncCreate c astro) = Returns None
      \<and> Finalizers (fst (snd (syncCreate c astro))) = Finalizers astro @ [AstroFinalizer]
      \<and> (AstroFinalizer \<notin> set (Finalizers astro) \<longrightarrow>
           count_list (Finalizers (fst (snd (syncCreate c astro)))) AstroFinalizer = 1))
   \<and> (SplitMetaNamespaceKey c key = (namespace, name, None)
        \<and> Lister_Get c namespace name = Inr astro
        \<and> IsZero (DeletionTimestamp astro) \<and> AstroFinalizer \<in> set (Finalizers astro) \<longrightarrow>
      syncHandler c key = calling [ListerGet namespace name] (syncUpdate c astro)
      \<and> fst (syncHandler c key) = Returns None
      \<and> storeWrites (snd (syncHandler c key)) = []
      \<and> fst (snd (syncUpdate c astro)) = astro)"
  by (simp add: syncCreate_def Let_def syncHandler_def syncUpdate_def calling_def
        rangeFinalizers_mem count_list_0_iff)

theorem syncCreate_appends_token_witness:
  "Update (cacheEnv astroPending)
      (astroPending\<lparr>Finalizers := Finalizers astroPending @ [AstroFinalizer]\<rparr>) = None
   \<and> AstroFinalizer \<notin> set (Finalizers astroPending)
   \<and> fst (syncCreate (cacheEnv astroPending) astroPending) = Returns None
   \<and> Finalizers (fst (snd (syncCreate (cacheEnv astroPending) astroPending)))
       = [''kubernetes'', AstroFinalizer]
   \<and> SplitMetaNamespaceKey (cacheEnv astroEstablished) ''ns/a'' = (''ns'', ''a'', None)
   \<and> Lister_Get (cacheEnv astroEstablished) ''ns'' ''a'' = Inr astroEstablished
   \<and> IsZero (DeletionTimestamp astroEstablished)
   \<and> AstroFinalizer \<in> set (Finalizers astroEstablished)
   \<and> fst (syncHandler (cacheEnv astroEstablished) ''ns/a'') = Returns None
   \<and> storeWrites (snd (syncHandler (cacheEnv astroEstablished) ''ns/a'')) = []"
  using syncCreate_appends_token
          [of "cacheEnv astroPending" astroPending "''ns/a''" "''ns''" "''a''"]
        syncCreate_appends_token
          [of "cacheEnv astroEstablished" astroEstablished "''ns/a''" "''ns''" "''a''"]
  by (simp add: astroPending_def astroEstablished_def cacheEnv_def mkEnv_def AstroFinalizer_def
        splitKey_def cacheGet_def IsZero_def calling_def syncUpdate_def)

subsection \<open>C2: what the worker does with the result of a sync\<close>

text \<open>
  Claim C2 says that when \<open>syncHandler\<close> returns an error the worker puts the key back
  with \<open>AddRateLimited\<close>. It does not: with a lister whose read fails, \<open>syncHandler\<close>
  returns that error for the key \<open>ns/a\<close>, and the only queue calls of
  \<open>processNextWorkItem\<close> are \<open>Get\<close> and \<open>Done\<close>.
\<close>
theorem failed_sync_not_requeued:
  "fst (syncHandler failingReadEnv ''ns/a'') = Returns (Some unavailable)
   \<and> queueCalls (snd (processNextWorkItem failingReadEnv (GoString ''ns/a'', False)))
       = [Get, Done (GoString ''ns/a'')]
   \<and> Workqueue (AddRateLimited (GoString ''ns/a''))
       \<notin> set (snd (processNextWorkItem failingReadEnv (GoString ''ns/a'', False)))"
  by (simp add: processNextWorkItem_def syncHandler_def Let_def failingReadEnv_def mkEnv_def splitKey_def
        unavailable_def)

text \<open>
  Claim C2 as amended: for every key pulled from the queue, if \<open>syncHandler\<close> returns an
  error, \<open>processNextWorkItem\<close> calls \<open>Done\<close> for the key, reports the wrapped error
  through \<open>HandleError\<close> and returns false, which ends the \<open>runWorker\<close> loop; it calls
  neither \<open>AddRateLimited\<close> nor \<open>Forget\<close>, so the key is not put back. If
  \<open>syncHandler\<close> returns nil, it calls \<open>Forget\<close> and then \<open>Done\<close> and returns true.
\<close>
theorem processNextWorkItem_on_sync_result:
  "(syncHandler c key = (Returns (Some err), t) \<longrightarrow>
      processNextWorkItem c (GoString key, False) =
        (Returns False,
         [Workqueue Get] @ t @
         [Workqueue (Done (GoString key)),
          HandleError (Errorf (''error syncing '' @ [CHR 0x27] @ key @ [CHR 0x27] @ '':''
                                @ Error err))])
      \<and> queueCalls (snd (processNextWorkItem c (GoString key, False)))
          = [Get, Done (GoString key)]
      \<and> fst (runWorker c ((GoString key, False) # gets)) = Some (Returns ()))
   \<and> (syncHandler c key = (Returns None, t) \<longrightarrow>
      fst (processNextWorkItem c (GoString key, False)) = Returns True
      \<and> queueCalls (snd (processNextWorkItem c (GoString key, False)))
          = [Get, Forget (GoString key), Done (GoString key)])"
proof -
  have q: "queueCalls t = []" if "syncHandler c key = (r, t)" for r
    using queueCalls_syncHandler [of c key] that by simp
  show ?thesis
    by (auto simp add: processNextWorkItem_def queueCalls_append q)
qed

theorem processNextWorkItem_on_sync_result_witness:
  "syncHandler failingReadEnv ''ns/a'' =
     (Returns (Some unavailable),
      [ListerGet ''ns'' ''a'', HandleError (Errorf ''failed to get astro by: ns/a'')])
   \<and> queueCalls (snd (processNextWorkItem failingReadEnv (GoString ''ns/a'', False)))
       = [Get, Done (GoString ''ns/a'')]
   \<and> fst (runWorker failingReadEnv [(GoString ''ns/a'', False), (GoString ''ns/b'', False)])
       = Some (Returns ())
   \<and> syncHandler (cacheEnv astroEstablished) ''ns/a'' =
       (Returns None, [ListerGet ''ns'' ''a'', Klog (''Sync update astro: a'' @ [CHR 0x0A])])
   \<and> fst (processNextWorkItem (cacheEnv astroEstablished) (GoString ''ns/a'', False))
       = Returns True
   \<and> queueCalls (snd (processNextWorkItem (cacheEnv astroEstablished) (GoString ''ns/a'', False)))
       = [Get, Forget (GoString ''ns/a''), Done (GoString ''ns/a'')]"
proof -
  have e: "syncHandler failingReadEnv ''ns/a'' =
     (Returns (Some unavailable),
      [ListerGet ''ns'' ''a'', HandleError (Errorf ''failed to get astro by: ns/a'')])"
    by (simp add: syncHandler_def Let_def failingReadEnv_def mkEnv_def splitKey_def
          unavailable_def)
  have s: "syncHandler (cacheEnv astroEstablished) ''ns/a'' =
       (Returns None, [ListerGet ''ns'' ''a'', Klog (''Sync update astro: a'' @ [CHR 0x0A])])"
    by (simp add: syncHandler_def Let_def cacheEnv_def mkEnv_def splitKey_def cacheGet_def
          astroEstablished_def astroPending_def IsZero_def calling_def syncUpdate_def)
  show ?thesis
    using e s
      processNextWorkItem_on_sync_result [of failingReadEnv "''ns/a''" unavailable
        "[ListerGet ''ns'' ''a'', HandleError (Errorf ''failed to get astro by: ns/a'')]"
        "[(GoString ''ns/b'', False)]"]
      processNextWorkItem_on_sync_result [of "cacheEnv astroEstablished" "''ns/a''" unavailable
        "[ListerGet ''ns'' ''a'', Klog (''Sync update astro: a'' @ [CHR 0x0A])]" "[]"]
    by simp
qed

subsection \<open>C3: classification\<close>

text \<open>
  Claim C3: \<open>syncHandler\<close> sends every object it has read to exactly one handler. If the
  deletion timestamp is set (\<open>IsZero\<close> is false) it calls \<open>syncDelete\<close>, whatever the
  finalizers are; otherwise, if the token is among the finalizers, it calls \<open>syncUpdate\<close>;
  otherwise it calls \<open>syncCreate\<close>. In each case the result of \<open>syncHandler\<close> is the
  result of that handler, after the effects \<open>pre\<close> of parsing the key and reading the
  object.
\<close>
theorem syncHandler_classification:
  assumes "SplitMetaNamespaceKey c key = (namespace, name, err)"
      and "Lister_Get c namespace name = Inr astro"
      and "pre = (if err \<noteq> None then [HandleError (Errorf (''invalid respirce key:'' @ key))]
                  else []) @ [ListerGet namespace name]"
  shows "(\<not> IsZero (DeletionTimestamp astro) \<longrightarrow>
            syncHandler c key = calling pre (syncDelete c astro))
       \<and> (IsZero (DeletionTimestamp astro) \<and> AstroFinalizer \<in> set (Finalizers astro) \<longrightarrow>
            syncHandler c key = calling pre (syncUpdate c astro))
       \<and> (IsZero (DeletionTimestamp astro) \<and> AstroFinalizer \<notin> set (Finalizers astro) \<longrightarrow>
            syncHandler c key = calling pre (syncCreate c astro))"
  using assms by (simp add: syncHandler_def rangeFinalizers_mem)

theorem syncHandler_classification_witness:
  "SplitMetaNamespaceKey (cacheEnv astroDeleting) ''ns/a'' = (''ns'', ''a'', None)
   \<and> Lister_Get (cacheEnv astroDeleting) ''ns'' ''a'' = Inr astroDeleting
   \<and> \<not> IsZero (DeletionTimestamp astroDeleting)
   \<and> AstroFinalizer \<in> set (Finalizers astroDeleting)
   \<and> syncHandler (cacheEnv astroDeleting) ''ns/a'' =
       calling [ListerGet ''ns'' ''a''] (syncDelete (cacheEnv astroDeleting) astroDeleting)
   \<and> Lister_Get (cacheEnv astroEstablished) ''ns'' ''a'' = Inr astroEstablished
   \<and> IsZero (DeletionTimestamp astroEstablished)
   \<and> AstroFinalizer \<in> set (Finalizers astroEstablished)
   \<and> syncHandler (cacheEnv astroEstablished) ''ns/a'' =
       calling [ListerGet ''ns'' ''a''] (syncUpdate (cacheEnv astroEstablished) astroEstablished)
   \<and> Lister_Get (cacheEnv astroPending) ''ns'' ''a'' = Inr astroPending
   \<and> IsZero (DeletionTimestamp astroPending)
   \<and> AstroFinalizer \<notin> set (Finalizers astroPending)
   \<and> syncHandler (cacheEnv astroPending) ''ns/a'' =
       calling [ListerGet ''ns'' ''a''] (syncCreate (cacheEnv astroPending) astroPending)"
proof -
  have k: "SplitMetaNamespaceKey (cacheEnv a) ''ns/a'' = (''ns'', ''a'', None)" for a
    by (simp add: cacheEnv_def mkEnv_def splitKey_def)
  have d: "Lister_Get (cacheEnv astroDeleting) ''ns'' ''a'' = Inr astroDeleting"
    by (simp add: cacheEnv_def mkEnv_def cacheGet_def astroDeleting_def astroEstablished_def
          astroPending_def)
  have e: "Lister_Get (cacheEnv astroEstablished) ''ns'' ''a'' = Inr astroEstablished"
    by (simp add: cacheEnv_def mkEnv_def cacheGet_def astroEstablished_def astroPending_def)
  have p: "Lister_Get (cacheEnv astroPending) ''ns'' ''a'' = Inr astroPending"
    by (simp add: cacheEnv_def mkEnv_def cacheGet_def astroPending_def)
  have z: "\<not> IsZero (DeletionTimestamp astroDeleting)"
          "IsZero (DeletionTimestamp astroEstablished)" "IsZero (DeletionTimestamp astroPending)"
          "AstroFinalizer \<in> set (Finalizers astroDeleting)"
          "AstroFinalizer \<in> set (Finalizers astroEstablished)"
          "AstroFinalizer \<notin> set (Finalizers astroPending)"
    by (simp_all add: IsZero_def astroDeleting_def astroEstablished_def astroPending_def
          AstroFinalizer_def)
  have r: "(if (None :: error option) \<noteq> None
            then [HandleError (Errorf (''invalid respirce key:'' @ ''ns/a''))] else [])
           @ [ListerGet ''ns'' ''a''] = [ListerGet ''ns'' ''a'']"
    by simp
  show ?thesis
    using k d e p z syncHandler_classification [OF k d r [symmetric]]
      syncHandler_classification [OF k e r [symmetric]]
      syncHandler_classification [OF k p r [symmetric]]
    by simp
qed

subsection \<open>C4: an object that is gone\<close>

text \<open>
  Claim C4: for every well-formed key whose read reports not-found, \<open>syncHandler\<close>
  returns nil after the read alone, and \<open>processNextWorkItem\<close> then calls \<open>Forget\<close>
  and \<open>Done\<close> for the key and nothing else on the queue: no retry is scheduled.
\<close>
theorem not_found_is_success:
  assumes "SplitMetaNamespaceKey c key = (namespace, name, None)"
      and "Lister_Get c namespace name = Inl err"
      and "IsNotFound err"
  shows "syncHandler c key = (Returns None, [ListerGet namespace name])
       \<and> processNextWorkItem c (GoString key, False) =
           (Returns True,
            [Workqueue Get, ListerGet namespace name,
             Workqueue (Forget (GoString key)), Workqueue (Done (GoString key))])"
  using assms by (simp add: processNextWorkItem_def syncHandler_def)

theorem not_found_is_success_witness:
  "SplitMetaNamespaceKey (cacheEnv astroPending) ''ns/ghost'' = (''ns'', ''ghost'', None)
   \<and> Lister_Get (cacheEnv astroPending) ''ns'' ''ghost''
       = Inl (StatusError StatusReasonNotFound ''astro not found: ghost'')
   \<and> IsNotFound (StatusError StatusReasonNotFound ''astro not found: ghost'')
   \<and> syncHandler (cacheEnv astroPending) ''ns/ghost'' = (Returns None, [ListerGet ''ns'' ''ghost''])
   \<and> processNextWorkItem (cacheEnv astroPending) (GoString ''ns/ghost'', False) =
       (Returns True,
        [Workqueue Get, ListerGet ''ns'' ''ghost'',
         Workqueue (Forget (GoString ''ns/ghost'')), Workqueue (Done (GoString ''ns/ghost''))])"
proof -
  have k: "SplitMetaNamespaceKey (cacheEnv astroPending) ''ns/ghost'' = (''ns'', ''ghost'', None)"
    by (simp add: cacheEnv_def mkEnv_def splitKey_def)
  have g: "Lister_Get (cacheEnv astroPending) ''ns'' ''ghost''
             = Inl (StatusError StatusReasonNotFound ''astro not found: ghost'')"
    by (simp add: cacheEnv_def mkEnv_def cacheGet_def astroPending_def)
  have n: "IsNotFound (StatusError StatusReasonNotFound ''astro not found: ghost'')"
    by simp
  show ?thesis
    using k g n not_found_is_success [OF k g n] by simp
qed

subsection \<open>C5: a malformed key\<close>

text \<open>
  Claim C5 says that for a key the parser rejects, \<open>syncHandler\<close> reports the key and
  stops there, returning no error and writing nothing. The code reports the key and goes
  on: it reads the empty namespace and name that the parser returned with its error. For
  the key \<open>a/b/c\<close>, with a lister whose read fails \<open>syncHandler\<close> returns that error, and
  with a lister that answers with the object \<open>astroPending\<close> it runs creation handling
  and writes to the store.
\<close>
theorem malformed_key_falls_through:
  "SplitMetaNamespaceKey failingReadEnv ''a/b/c''
     = ([], [], Some (Errorf ''unexpected key format: a/b/c''))
   \<and> syncHandler failingReadEnv ''a/b/c'' =
       (Returns (Some unavailable),
        [HandleError (Errorf ''invalid respirce key:a/b/c''), ListerGet [] [],
         HandleError (Errorf ''failed to get astro by: /'')])
   \<and> storeWrites (snd (syncHandler (anyReadEnv astroPending) ''a/b/c''))
       = [astroPending\<lparr>Finalizers := [''kubernetes'', AstroFinalizer]\<rparr>]"
  by (simp add: syncHandler_def Let_def failingReadEnv_def anyReadEnv_def mkEnv_def splitKey_def
        unavailable_def astroPending_def IsZero_def calling_def syncCreate_def AstroFinalizer_def)

subsection \<open>C6: deletion handling without the token\<close>

text \<open>
  Claim C6: for every object whose finalizers do not contain the token, \<open>syncDelete\<close>
  with a persist that succeeds returns no error and leaves the object, its finalizers
  included, as it was; run a second time on the object it left, it again returns no error
  and the finalizers are still the original ones.
\<close>
theorem syncDelete_token_absent:
  assumes "AstroFinalizer \<notin> set (Finalizers astro)"
      and "Update c astro = None" and "Update c' astro = None"
  shows "syncDelete c astro =
           (Returns None, astro,
            [Klog (''Sync delete astro: '' @ Name astro @ [CHR 0x0A]), ClientUpdate astro])
       \<and> fst (syncDelete c' (fst (snd (syncDelete c astro)))) = Returns None
       \<and> Finalizers (fst (snd (syncDelete c' (fst (snd (syncDelete c astro)))))) = Finalizers astro"
  using assms by (simp add: syncDelete_def removeLoop_absent)

theorem syncDelete_token_absent_witness:
  "AstroFinalizer \<notin> set (Finalizers astroPending)
   \<and> Update (cacheEnv astroPending) astroPending = None
   \<and> fst (syncDelete (cacheEnv astroPending) astroPending) = Returns None
   \<and> Finalizers (fst (snd (syncDelete (cacheEnv astroPending) astroPending))) = [''kubernetes'']
   \<and> fst (syncDelete (cacheEnv astroPending)
             (fst (snd (syncDelete (cacheEnv astroPending) astroPending)))) = Returns None"
  using syncDelete_token_absent [of astroPending "cacheEnv astroPending" "cacheEnv astroPending"]
  by (simp add: astroPending_def cacheEnv_def mkEnv_def AstroFinalizer_def)

subsection \<open>C7: shutting the queue down\<close>

text \<open>
  Claim C7 says that \<open>Run\<close> shuts the work queue down before it returns. The deferred
  call in \<open>Run\<close> is \<open>ShuttingDown\<close>, the query, not \<open>ShutDown\<close>: in a run with two
  workers whose cache syncs and whose stop channel is closed, \<open>Run\<close> returns nil and its
  only queue call is \<open>ShuttingDown\<close>.
\<close>
theorem Run_never_shuts_queue_down:
  "Run (cacheEnv astroPending) 2 True =
     (Some None,
      [Klog ''Starting Astro control loop'', Klog ''Waiting for informer caches to sync'',
       WaitForCacheSync, Klog ''Starting workers'', GoWaitUntilRunWorker 0,
       GoWaitUntilRunWorker 1, Klog ''Started workers'', ReceiveStopCh,
       Klog ''Shutting down workers'', Workqueue ShuttingDown, HandleCrash])
   \<and> queueCalls (snd (Run (cacheEnv astroPending) 2 True)) = [ShuttingDown]
   \<and> ShutDown \<notin> set (queueCalls (snd (Run (cacheEnv astroPending) 2 True)))"
  by (simp add: Run_def Let_def cacheEnv_def mkEnv_def eval_nat_numeral)

subsection \<open>C8: the result of Run\<close>

text \<open>
  Claim C8: \<open>Run\<close> returns an error exactly when the initial cache synchronisation fails,
  and then it has started no worker. When the synchronisation succeeds it starts one worker
  for each index below \<open>thread\<close>, receives from the stop channel, and returns nil if the
  channel is closed; if the channel is never closed it does not return.
\<close>
theorem Run_result:
  "((\<exists>err. fst (Run c thread stopCh) = Some (Some err)) \<longleftrightarrow> CacheSynced c = Some False)
   \<and> (CacheSynced c = Some False \<longrightarrow>
        (\<forall>i. GoWaitUntilRunWorker i \<notin> set (snd (Run c thread stopCh))))
   \<and> (CacheSynced c = Some True \<longrightarrow>
        fst (Run c thread stopCh) = (if stopCh then Some None else None)
        \<and> ReceiveStopCh \<in> set (snd (Run c thread stopCh))
        \<and> filter (\<lambda>e. \<exists>i. e = GoWaitUntilRunWorker i) (snd (Run c thread stopCh))
            = map GoWaitUntilRunWorker [0..<nat thread])"
proof -
  have f: "filter (\<lambda>e. \<exists>i. e = GoWaitUntilRunWorker i) (map GoWaitUntilRunWorker ns)
             = map GoWaitUntilRunWorker ns" for ns
    by (induction ns) auto
  show ?thesis
    by (cases "CacheSynced c") (auto simp add: Run_def Let_def f split: if_splits)
qed

theorem Run_result_witness:
  "CacheSynced ((cacheEnv astroPending)\<lparr>CacheSynced := Some False\<rparr>) = Some False
   \<and> fst (Run ((cacheEnv astroPending)\<lparr>CacheSynced := Some False\<rparr>) 2 True)
       = Some (Some (Errorf ''failed to wati for caches to sync''))
   \<and> GoWaitUntilRunWorker 0
        \<notin> set (snd (Run ((cacheEnv astroPending)\<lparr>CacheSynced := Some False\<rparr>) 2 True))
   \<and> CacheSynced (cacheEnv astroPending) = Some True
   \<and> fst (Run (cacheEnv astroPending) 2 True) = Some None
   \<and> fst (Run (cacheEnv astroPending) 2 False) = None
   \<and> ReceiveStopCh \<in> set (snd (Run (cacheEnv astroPending) 2 True))
   \<and> filter (\<lambda>e. \<exists>i. e = GoWaitUntilRunWorker i) (snd (Run (cacheEnv astroPending) 2 True))
       = [GoWaitUntilRunWorker 0, GoWaitUntilRunWorker 1]"
proof -
  have a: "CacheSynced ((cacheEnv astroPending)\<lparr>CacheSynced := Some False\<rparr>) = Some False"
    by simp
  have b: "CacheSynced (cacheEnv astroPending) = Some True"
    by (simp add: cacheEnv_def mkEnv_def)
  have e: "fst (Run ((cacheEnv astroPending)\<lparr>CacheSynced := Some False\<rparr>) 2 True)
       = Some (Some (Errorf ''failed to wati for caches to sync''))"
    by (simp add: Run_def)
  have u: "[0..<nat 2] = [0, 1]"
    by (simp add: eval_nat_numeral)
  show ?thesis
    using a b e u
      Run_result [of "(cacheEnv astroPending)\<lparr>CacheSynced := Some False\<rparr>" 2 True]
      Run_result [of "cacheEnv astroPending" 2 True]
      Run_result [of "cacheEnv astroPending" 2 False]
    by auto
qed

subsection \<open>C9: the event handlers\<close>

text \<open>
  Claim C9: when the old and the new object have the same resource version, \<open>updateAstro\<close>
  does nothing at all; when the versions differ and the key function gives the new object's
  key, its one queue call is \<open>AddRateLimited\<close> of that key. Every queue call of
  \<open>addAstro\<close>, \<open>updateAstro\<close> and \<open>deleteAstro\<close>, on any arguments, is an
  \<open>AddRateLimited\<close>.
\<close>
theorem updateAstro_version_gate:
  "(ResourceVersion oldItem = ResourceVersion newItem \<longrightarrow>
      updateAstro c (AstroPtr oldItem) (AstroPtr newItem) = (Returns (), []))
   \<and> (ResourceVersion oldItem \<noteq> ResourceVersion newItem
        \<and> MetaNamespaceKeyFunc c (AstroPtr newItem) = Inr key \<longrightarrow>
      fst (updateAstro c (AstroPtr oldItem) (AstroPtr newItem)) = Returns ()
      \<and> queueCalls (snd (updateAstro c (AstroPtr oldItem) (AstroPtr newItem)))
          = [AddRateLimited (GoString key)])
   \<and> (\<forall>q \<in> set (queueCalls (snd (addAstro c item)))
            \<union> set (queueCalls (snd (updateAstro c old new)))
            \<union> set (queueCalls (snd (deleteAstro c item'))). isAddRateLimited q)"
proof -
  have u: "\<forall>q \<in> set (queueCalls (snd (updateAstro c old new))). isAddRateLimited q"
    using updateAstro_calls [of c old new] by auto
  have a: "\<forall>q \<in> set (queueCalls (snd (addAstro c item))). isAddRateLimited q"
    by (auto simp add: addAstro_calls split: sum.splits)
  have d: "\<forall>q \<in> set (queueCalls (snd (deleteAstro c item'))). isAddRateLimited q"
    by (auto simp add: deleteAstro_calls split: sum.splits)
  have g: "ResourceVersion oldItem = ResourceVersion newItem \<longrightarrow>
      updateAstro c (AstroPtr oldItem) (AstroPtr newItem) = (Returns (), [])"
    by (simp add: updateAstro_def)
  have e: "ResourceVersion oldItem \<noteq> ResourceVersion newItem
        \<and> MetaNamespaceKeyFunc c (AstroPtr newItem) = Inr key \<longrightarrow>
      fst (updateAstro c (AstroPtr oldItem) (AstroPtr newItem)) = Returns ()
      \<and> queueCalls (snd (updateAstro c (AstroPtr oldItem) (AstroPtr newItem)))
          = [AddRateLimited (GoString key)]"
    by (simp add: updateAstro_def)
  show ?thesis
    using u a d g e by blast
qed

theorem updateAstro_version_gate_witness:
  "ResourceVersion astroPending = ResourceVersion astroEstablished
   \<and> updateAstro (cacheEnv astroPending) (AstroPtr astroPending) (AstroPtr astroEstablished)
       = (Returns (), [])
   \<and> ResourceVersion astroPending \<noteq> ResourceVersion (astroEstablished\<lparr>ResourceVersion := ''2''\<rparr>)
   \<and> MetaNamespaceKeyFunc (cacheEnv astroPending)
        (AstroPtr (astroEstablished\<lparr>ResourceVersion := ''2''\<rparr>)) = Inr ''ns/a''
   \<and> queueCalls (snd (updateAstro (cacheEnv astroPending) (AstroPtr astroPending)
                        (AstroPtr (astroEstablished\<lparr>ResourceVersion := ''2''\<rparr>))))
       = [AddRateLimited (GoString ''ns/a'')]
   \<and> queueCalls (snd (addAstro (cacheEnv astroPending) (AstroPtr astroPending)))
       = [AddRateLimited (GoString ''ns/a'')]
   \<and> queueCalls (snd (deleteAstro (cacheEnv astroPending)
                        (DeletedFinalStateUnknown ''ns/a'' (AstroPtr astroPending))))
       = [AddRateLimited (GoString ''ns/a'')]
   \<and> isAddRateLimited (AddRateLimited (GoString ''ns/a''))"
proof -
  have r: "ResourceVersion astroPending = ResourceVersion astroEstablished"
          "ResourceVersion astroPending \<noteq> ResourceVersion (astroEstablished\<lparr>ResourceVersion := ''2''\<rparr>)"
    by (simp_all add: astroEstablished_def astroPending_def)
  have k: "MetaNamespaceKeyFunc (cacheEnv astroPending)
        (AstroPtr (astroEstablished\<lparr>ResourceVersion := ''2''\<rparr>)) = Inr ''ns/a''"
    by (simp add: cacheEnv_def mkEnv_def metaNamespaceKey_def astroEstablished_def astroPending_def)
  have a: "queueCalls (snd (addAstro (cacheEnv astroPending) (AstroPtr astroPending)))
       = [AddRateLimited (GoString ''ns/a'')]"
    by (simp add: addAstro_def cacheEnv_def mkEnv_def metaNamespaceKey_def astroPending_def)
  have d: "queueCalls (snd (deleteAstro (cacheEnv astroPending)
                        (DeletedFinalStateUnknown ''ns/a'' (AstroPtr astroPending))))
       = [AddRateLimited (GoString ''ns/a'')]"
    by (simp add: deleteAstro_def cacheEnv_def mkEnv_def deletionHandlingMetaNamespaceKey_def)
  show ?thesis
    using r k a d
      updateAstro_version_gate [of astroPending astroEstablished "cacheEnv astroPending"
        "''ns/a''" "AstroPtr astroPending" "AstroPtr astroPending"
        "AstroPtr (astroEstablished\<lparr>ResourceVersion := ''2''\<rparr>)"
        "DeletedFinalStateUnknown ''ns/a'' (AstroPtr astroPending)"]
      updateAstro_version_gate [of astroPending "astroEstablished\<lparr>ResourceVersion := ''2''\<rparr>"
        "cacheEnv astroPending" "''ns/a''" "AstroPtr astroPending" "AstroPtr astroPending"
        "AstroPtr (astroEstablished\<lparr>ResourceVersion := ''2''\<rparr>)"
        "DeletedFinalStateUnknown ''ns/a'' (AstroPtr astroPending)"]
    by simp
qed

subsection \<open>C10: the removal loop on a repeated token\<close>

text \<open>
  Claim C10 says that the removal loop of \<open>syncDelete\<close> stays within the bounds of the
  shrinking list for every finalizer list. On the list that holds the token twice it does
  not: the first round moves the last element to index 0 and cuts the list to length 1,
  the second round still finds the token at index 1 of the backing array and indexes the
  list there, which panics.
\<close>
theorem syncDelete_repeated_token_panics:
  "syncDelete (cacheEnv astroTwice) astroTwice =
     (Panics (IndexOutOfRange 1 1),
      astroTwice\<lparr>Finalizers := [AstroFinalizer]\<rparr>,
      [Klog (''Sync delete astro: a'' @ [CHR 0x0A])])"
  by (simp add: syncDelete_def astroTwice_def astroDeleting_def astroEstablished_def
        astroPending_def)

end
